theory Spec2Isabelle
  imports Main "HOL-Library.Char_ord"
begin

section \<open>Go strings and the \<open>strings\<close> package\<close>

text \<open>
  A Go string is a sequence of bytes; \<open>string\<close> (a list of 8-bit characters) models it,
  and \<open>length\<close> is Go's \<open>len\<close>.
\<close>

definition HasPrefix :: "string \<Rightarrow> string \<Rightarrow> bool" where
  "HasPrefix s p = (length p \<le> length s \<and> take (length p) s = p)"

definition HasSuffix :: "string \<Rightarrow> string \<Rightarrow> bool" where
  "HasSuffix s suffix =
     (length suffix \<le> length s \<and> drop (length s - length suffix) s = suffix)"

fun Contains :: "string \<Rightarrow> string \<Rightarrow> bool" where
  "Contains [] substr = (substr = [])"
| "Contains (c # cs) substr = (HasPrefix (c # cs) substr \<or> Contains cs substr)"

text \<open>
  \<open>unicode.IsSpace\<close> holds of the runes U+0009..U+000D, U+0020, U+0085, U+00A0, U+1680,
  U+2000..U+200A, U+2028, U+2029, U+202F, U+205F and U+3000. A string starts (ends) with
  such a rune exactly when it starts (ends) with the rune's UTF-8 encoding, so the runes
  are listed by their encodings.
\<close>

definition spaceRunes :: "string list" where
  "spaceRunes =
     [[CHR 0x09], [CHR 0x0A], [CHR 0x0B], [CHR 0x0C], [CHR 0x0D], [CHR 0x20],
      [CHR 0xC2, CHR 0x85], [CHR 0xC2, CHR 0xA0],
      [CHR 0xE1, CHR 0x9A, CHR 0x80],
      [CHR 0xE2, CHR 0x80, CHR 0x80], [CHR 0xE2, CHR 0x80, CHR 0x81],
      [CHR 0xE2, CHR 0x80, CHR 0x82], [CHR 0xE2, CHR 0x80, CHR 0x83],
      [CHR 0xE2, CHR 0x80, CHR 0x84], [CHR 0xE2, CHR 0x80, CHR 0x85],
      [CHR 0xE2, CHR 0x80, CHR 0x86], [CHR 0xE2, CHR 0x80, CHR 0x87],
      [CHR 0xE2, CHR 0x80, CHR 0x88], [CHR 0xE2, CHR 0x80, CHR 0x89],
      [CHR 0xE2, CHR 0x80, CHR 0x8A],
      [CHR 0xE2, CHR 0x80, CHR 0xA8], [CHR 0xE2, CHR 0x80, CHR 0xA9],
      [CHR 0xE2, CHR 0x80, CHR 0xAF], [CHR 0xE2, CHR 0x81, CHR 0x9F],
      [CHR 0xE3, CHR 0x80, CHR 0x80]]"

text \<open>The byte width of the rune of \<open>ws\<close> that \<open>s\<close> starts with, 0 when there is none.\<close>

definition runeWidth :: "string list \<Rightarrow> string \<Rightarrow> nat" where
  "runeWidth ws s = (case find (HasPrefix s) ws of None \<Rightarrow> 0 | Some w \<Rightarrow> length w)"

function trimRunes :: "string list \<Rightarrow> string \<Rightarrow> string" where
  "trimRunes ws s =
     (if runeWidth ws s = 0 then s else trimRunes ws (drop (runeWidth ws s) s))"
  by pat_completeness auto
termination
proof (relation "measure (\<lambda>(ws, s). length s)")
  show "wf (measure (\<lambda>(ws, s). length s))" by simp
next
  fix ws :: "string list" and s :: string
  assume "runeWidth ws s \<noteq> 0"
  moreover have "runeWidth ws s \<le> length s"
    by (auto simp: runeWidth_def HasPrefix_def find_Some_iff split: option.splits)
  ultimately show "((ws, drop (runeWidth ws s) s), (ws, s)) \<in> measure (\<lambda>(ws, s). length s)"
    by simp
qed

declare trimRunes.simps [simp del]

text \<open>
  \<open>strings.TrimSpace\<close>: the leading white-space runes are removed, then the trailing ones
  (the suffixes are matched on the reversed string).
\<close>

definition TrimLeft :: "string \<Rightarrow> string" where
  "TrimLeft s = trimRunes spaceRunes s"

definition TrimRight :: "string \<Rightarrow> string" where
  "TrimRight s = rev (trimRunes (map rev spaceRunes) (rev s))"

definition TrimSpace :: "string \<Rightarrow> string" where
  "TrimSpace s = TrimRight (TrimLeft s)"

text \<open>
  \<open>fmt.Sprintf("%d", n)\<close>: the decimal digits of \<open>n\<close>, with a minus sign when negative.
\<close>

fun decimal :: "nat \<Rightarrow> string" where
  "decimal n =
     (if n < 10 then [''0123456789'' ! n]
      else decimal (n div 10) @ [''0123456789'' ! (n mod 10)])"

declare decimal.simps [simp del]

definition Sprintf_d :: "int \<Rightarrow> string" where
  "Sprintf_d n = (if n < 0 then CHR ''-'' # decimal (nat (- n)) else decimal (nat n))"

section \<open>Library functions taken as parameters\<close>

text \<open>
  The functions of the Go standard library whose results depend on the Unicode case tables
  or on the URL and path grammars are not unfolded here; the program is modelled for any
  behaviour of them. \<open>'u\<close> is the type of a parsed URL (\<open>*url.URL\<close>).
  \<open>url_Parse\<close> is \<open>None\<close> where \<open>url.Parse\<close> returns an error, and
  \<open>ResolveReference lib base u\<close> stands for \<open>base.ResolveReference(u).String()\<close>.
\<close>

record 'u golib =
  ToLower :: "string \<Rightarrow> string"
  url_Parse :: "string \<Rightarrow> 'u option"
  IsAbs :: "'u \<Rightarrow> bool"
  ResolveReference :: "'u \<Rightarrow> 'u \<Rightarrow> string"
  filepath_Join :: "string \<Rightarrow> string \<Rightarrow> string"
  filepath_Clean :: "string \<Rightarrow> string"

section \<open>The scraper package\<close>

subsection \<open>Data\<close>

record Judgment =
  DateOfJudgment :: string
  CauseTitleCaseNo :: string
  Subject :: string
  JudgmentSummary :: string
  PDFLink :: string

text \<open>
  What the goquery selections of \<open>ScrapeYear\<close> see of a \<open>tr\<close> element: the texts of the
  \<open>th\<close> elements below it, the texts of the \<open>td\<close> elements below it, and the \<open>href\<close>
  attribute of each \<open>a\<close> element below it (\<open>None\<close> when the attribute is absent), all in
  document order. A table is the list of its \<open>tr\<close> elements.
\<close>

record row =
  ths :: "string list"
  tds :: "string list"
  anchors :: "string option list"

type_synonym table = "row list"

text \<open>
  A parsed document, as far as the two selectors see it: the tables matched by
  \<open>.landmark_judgment_summary table\<close> and the tables matched by \<open>table\<close>.
\<close>

record document =
  landmark_tables :: "table list"
  all_tables :: "table list"

datatype error =
    YearOutOfRange
  | FetchFailed string string
  | NoJudgmentsFound string
  | External string

subsection \<open>isNumericShort\<close>

text \<open>
  The loop ranges over the runes of \<open>s\<close>. A rune lies in \<open>'0'..'9'\<close> only if it is
  encoded by that single byte, and every byte outside that range belongs to a rune
  outside it, so the test is made on the bytes.
\<close>

definition isNumericShort :: "string \<Rightarrow> bool" where
  "isNumericShort s0 =
     (let s = TrimSpace s0 in
      if s = [] \<or> length s > 6 then False
      else list_all (\<lambda>r. \<not> (r < CHR ''0'' \<or> r > CHR ''9'')) s)"

subsection \<open>resolve\<close>

definition resolve :: "'u golib \<Rightarrow> 'u \<Rightarrow> string \<Rightarrow> string" where
  "resolve lib base href0 =
     (let href = TrimSpace href0 in
      if href = [] then []
      else case url_Parse lib href of
             None \<Rightarrow> href
           | Some u \<Rightarrow> if IsAbs lib u then href else ResolveReference lib base u)"

subsection \<open>The header mapping\<close>

text \<open>
  The callback of \<open>Each\<close> over the \<open>th\<close> elements of the first row, applied to the cell
  of index \<open>i\<close>; the state is the map and the flag the closure updates.
\<close>

definition headerStep ::
  "'u golib \<Rightarrow> nat \<Rightarrow> string \<Rightarrow> (string \<rightharpoonup> nat) \<times> bool \<Rightarrow> (string \<rightharpoonup> nat) \<times> bool" where
  "headerStep lib i h st =
     (let headerMap = fst st; hasHeader = snd st; text = TrimSpace h in
      if text \<noteq> [] then
        (let lower = ToLower lib text in
         if Contains lower ''date'' then (headerMap(''date'' \<mapsto> i), True)
         else if Contains lower ''cause'' \<or> Contains lower ''case'' \<or> Contains lower ''title''
           then (headerMap(''cause'' \<mapsto> i), True)
         else if Contains lower ''subject'' then (headerMap(''subject'' \<mapsto> i), True)
         else if Contains lower ''summary'' then (headerMap(''summary'' \<mapsto> i), True)
         else if Contains lower ''view'' \<or> Contains lower ''pdf''
           then (headerMap(''pdf'' \<mapsto> i), True)
         else (headerMap, True))
      else (headerMap, hasHeader))"

fun headerLoop ::
  "'u golib \<Rightarrow> nat \<Rightarrow> string list \<Rightarrow> (string \<rightharpoonup> nat) \<times> bool \<Rightarrow> (string \<rightharpoonup> nat) \<times> bool" where
  "headerLoop lib i [] st = st"
| "headerLoop lib i (h # hs) st = headerLoop lib (Suc i) hs (headerStep lib i h st)"

text \<open>\<open>sel.Find("tr").First().Find("th")\<close>: the header cells of the first row, none without rows.\<close>

definition firstRowHeaders :: "table \<Rightarrow> string list" where
  "firstRowHeaders rows = (case rows of [] \<Rightarrow> [] | r # _ \<Rightarrow> ths r)"

definition buildHeader :: "'u golib \<Rightarrow> table \<Rightarrow> (string \<rightharpoonup> nat) \<times> bool" where
  "buildHeader lib rows = headerLoop lib 0 (firstRowHeaders rows) (Map.empty, False)"

subsection \<open>Reading a row\<close>

text \<open>The text of \<open>cols.Eq(i)\<close>: an index out of range selects nothing, whose text is empty.\<close>

definition EqText :: "string list \<Rightarrow> nat \<Rightarrow> string" where
  "EqText cols i = (if i < length cols then cols ! i else [])"

definition readBy :: "(string \<rightharpoonup> nat) \<Rightarrow> string list \<Rightarrow> string \<Rightarrow> nat \<Rightarrow> string" where
  "readBy headerMap cols key pos =
     (let byPos = (if pos < length cols then TrimSpace (EqText cols pos) else []) in
      case headerMap key of
        Some idx \<Rightarrow> if idx < length cols then TrimSpace (EqText cols idx) else byPos
      | None \<Rightarrow> byPos)"

definition serialShift :: "string list \<Rightarrow> nat" where
  "serialShift cols =
     (if length cols \<ge> 5 then
        (let first = TrimSpace (EqText cols 0) in if isNumericShort first then 1 else 0)
      else 0)"

text \<open>
  \<open>EachWithBreak\<close> over the anchors of the row: the callback returns false, which ends the
  iteration, at the first anchor it accepts.
\<close>

fun pdfLoop :: "'u golib \<Rightarrow> 'u \<Rightarrow> string option list \<Rightarrow> string" where
  "pdfLoop lib base [] = []"
| "pdfLoop lib base (a # as) =
     (case a of
        None \<Rightarrow> pdfLoop lib base as
      | Some href \<Rightarrow>
          (let lh = ToLower lib (TrimSpace href) in
           if HasSuffix lh ''.pdf'' \<or> Contains lh ''view-pdf'' \<or> Contains lh ''/view-pdf/''
           then resolve lib base href
           else pdfLoop lib base as))"

text \<open>
  The callback of \<open>Each\<close> over the rows, applied to the row of index \<open>i\<close>: the record it
  appends to \<open>judgments\<close>, or \<open>None\<close> when it appends nothing.
\<close>

definition rowStep ::
  "'u golib \<Rightarrow> 'u \<Rightarrow> (string \<rightharpoonup> nat) \<Rightarrow> bool \<Rightarrow> nat \<Rightarrow> row \<Rightarrow> Judgment option" where
  "rowStep lib base headerMap hasHeader i s =
     (if i = 0 \<and> hasHeader then None
      else
        (let cols = tds s in
         if length cols < 1 then None
         else
           (let shift = serialShift cols;
                date = readBy headerMap cols ''date'' (0 + shift);
                cause = readBy headerMap cols ''cause'' (1 + shift);
                subject = readBy headerMap cols ''subject'' (2 + shift);
                summary = readBy headerMap cols ''summary'' (3 + shift);
                pdf = pdfLoop lib base (anchors s)
            in if date \<noteq> [] \<or> cause \<noteq> [] \<or> subject \<noteq> [] \<or> summary \<noteq> [] \<or> pdf \<noteq> []
               then Some \<lparr>DateOfJudgment = date, CauseTitleCaseNo = cause, Subject = subject,
                          JudgmentSummary = summary, PDFLink = pdf\<rparr>
               else None)))"

fun rowLoop ::
  "'u golib \<Rightarrow> 'u \<Rightarrow> (string \<rightharpoonup> nat) \<Rightarrow> bool \<Rightarrow> nat \<Rightarrow> table \<Rightarrow> Judgment list" where
  "rowLoop lib base headerMap hasHeader i [] = []"
| "rowLoop lib base headerMap hasHeader i (s # ss) =
     (case rowStep lib base headerMap hasHeader i s of
        None \<Rightarrow> rowLoop lib base headerMap hasHeader (Suc i) ss
      | Some j \<Rightarrow> j # rowLoop lib base headerMap hasHeader (Suc i) ss)"

text \<open>The landmark table if there is one, else the first table of the document.\<close>

definition locateTable :: "document \<Rightarrow> table option" where
  "locateTable doc =
     (case landmark_tables doc of
        t # _ \<Rightarrow> Some t
      | [] \<Rightarrow> (case all_tables doc of t # _ \<Rightarrow> Some t | [] \<Rightarrow> None))"

definition extractJudgments :: "'u golib \<Rightarrow> 'u \<Rightarrow> document \<Rightarrow> Judgment list" where
  "extractJudgments lib base doc =
     (case locateTable doc of
        None \<Rightarrow> []
      | Some sel \<Rightarrow>
          (let hdr = buildHeader lib sel in rowLoop lib base (fst hdr) (snd hdr) 0 sel))"

subsection \<open>ScrapeYear\<close>

text \<open>
  The outside world during one call of \<open>ScrapeYear\<close>: what each of its calls to the
  network and the file system returns. \<open>RequestURL\<close> is \<open>resp.Request.URL\<close>, and
  \<open>NewDocumentFromReader\<close> is applied to the body of the response.
\<close>

record 'u response =
  Status :: string
  StatusCode :: int
  Body :: string
  RequestURL :: 'u

record 'u env =
  http_Get :: "string \<Rightarrow> error + 'u response"
  NewDocumentFromReader :: "string \<Rightarrow> error + document"
  os_MkdirAll :: "string \<Rightarrow> error option"
  os_Create :: "string \<Rightarrow> error option"
  Encode :: "string \<Rightarrow> Judgment list \<Rightarrow> error option"

text \<open>
  The calls a run makes to the outside, in order, each with whether it returned without
  error. \<open>EncodeJSON f js\<close> is \<open>enc.Encode(js)\<close> on the encoder of the file \<open>f\<close>.
\<close>

datatype call =
    HttpGet string
  | MkdirAll string
  | Create string
  | EncodeJSON string "Judgment list"

type_synonym trace = "(call \<times> bool) list"

definition pageURL :: "int \<Rightarrow> string" where
  "pageURL year =
     ''https://www.sci.gov.in/landmark-judgment-summaries/?judgment_year='' @ Sprintf_d year"

definition outFile :: "'u golib \<Rightarrow> string \<Rightarrow> int \<Rightarrow> string" where
  "outFile lib outDir year =
     filepath_Join lib outDir (''sci_judgments_'' @ Sprintf_d year @ ''.json'')"

text \<open>The result is the error returned (\<open>None\<close> for nil) and the calls made.\<close>

definition ScrapeYear :: "'u golib \<Rightarrow> 'u env \<Rightarrow> int \<Rightarrow> string \<Rightarrow> error option \<times> trace" where
  "ScrapeYear lib w year outDir =
     (if year < 2016 \<or> year > 2025 then (Some YearOutOfRange, [])
      else case http_Get w (pageURL year) of
        Inl err \<Rightarrow> (Some err, [(HttpGet (pageURL year), False)])
      | Inr resp \<Rightarrow>
          if StatusCode resp \<noteq> 200
          then (Some (FetchFailed (Status resp) (Body resp)), [(HttpGet (pageURL year), True)])
          else case NewDocumentFromReader w (Body resp) of
            Inl err \<Rightarrow> (Some err, [(HttpGet (pageURL year), True)])
          | Inr doc \<Rightarrow>
              (let judgments = extractJudgments lib (RequestURL resp) doc in
               if length judgments = 0
               then (Some (NoJudgmentsFound (pageURL year)), [(HttpGet (pageURL year), True)])
               else case os_MkdirAll w outDir of
                 Some err \<Rightarrow>
                   (Some err, [(HttpGet (pageURL year), True), (MkdirAll outDir, False)])
               | None \<Rightarrow>
                   (case os_Create w (outFile lib outDir year) of
                      Some err \<Rightarrow>
                        (Some err,
                         [(HttpGet (pageURL year), True), (MkdirAll outDir, True),
                          (Create (outFile lib outDir year), False)])
                    | None \<Rightarrow>
                        (case Encode w (outFile lib outDir year) judgments of
                           Some err \<Rightarrow>
                             (Some err,
                              [(HttpGet (pageURL year), True), (MkdirAll outDir, True),
                               (Create (outFile lib outDir year), True),
                               (EncodeJSON (outFile lib outDir year) judgments, False)])
                         | None \<Rightarrow>
                             (None,
                              [(HttpGet (pageURL year), True), (MkdirAll outDir, True),
                               (Create (outFile lib outDir year), True),
                               (EncodeJSON (outFile lib outDir year) judgments, True)])))))"

section \<open>The command\<close>

record flags =
  flag_year :: int
  flag_from :: int
  flag_to :: int
  flag_out :: string
  flag_concurrency :: int
  flag_retries :: int
  flag_retryDelay :: int

text \<open>
  What a goroutine of the command does, in order: an attempt on a year with its number and
  the result of \<open>ScrapeYear\<close>, the message that the year is done, the message that the
  worker gives up on a year after so many attempts, and a call
  \<open>time.Sleep(time.Duration(d) * time.Second)\<close>.
\<close>

datatype event =
    Attempt int int "error option \<times> trace"
  | Done int
  | GaveUp int int
  | Sleep int

text \<open>
  The outside world of a run: \<open>world y k\<close> is what the \<open>k\<close>-th call of \<open>ScrapeYear\<close> on
  the year \<open>y\<close> meets. Each year is scraped by one goroutine, so the calls on a year are
  numbered by the attempts of its job; in which order the goroutines of the pool interleave
  is not part of the model.
\<close>

type_synonym 'u world = "int \<Rightarrow> int \<Rightarrow> 'u env"

definition yearsOf :: "flags \<Rightarrow> int list" where
  "yearsOf f = (if flag_year f \<noteq> 0 then [flag_year f] else [flag_from f..flag_to f])"

text \<open>The sequential path: one call of \<open>ScrapeYear\<close> for each year, in order.\<close>

definition sequential :: "'u golib \<Rightarrow> 'u world \<Rightarrow> string \<Rightarrow> int list \<Rightarrow> event list" where
  "sequential lib world out years =
     concat (map (\<lambda>y.
       (let r = ScrapeYear lib (world y 1) y (filepath_Clean lib out) in
        if fst r \<noteq> None then [Attempt y 1 r] else [Attempt y 1 r, Done y])) years)"

text \<open>
  The inner loop of a worker on one job; \<open>attempt0\<close> is the value of \<open>attempt\<close> when the
  iteration begins. The flags and the counter are Go ints, modelled by \<open>int\<close>: a count of
  attempts stays far below \<open>2 ^ 63\<close>. The flag of the retries may be negative, as the
  command accepts it.
\<close>

function jobLoop ::
  "'u golib \<Rightarrow> 'u world \<Rightarrow> string \<Rightarrow> int \<Rightarrow> int \<Rightarrow> int \<Rightarrow> int \<Rightarrow> event list" where
  "jobLoop lib world out retries retryDelay year attempt0 =
     (if fst (ScrapeYear lib (world year (attempt0 + 1)) year (filepath_Clean lib out)) = None
      then [Attempt year (attempt0 + 1)
              (ScrapeYear lib (world year (attempt0 + 1)) year (filepath_Clean lib out)),
            Done year]
      else if attempt0 + 1 > retries
      then [Attempt year (attempt0 + 1)
              (ScrapeYear lib (world year (attempt0 + 1)) year (filepath_Clean lib out)),
            GaveUp year (attempt0 + 1)]
      else Attempt year (attempt0 + 1)
             (ScrapeYear lib (world year (attempt0 + 1)) year (filepath_Clean lib out))
           # Sleep retryDelay
           # jobLoop lib world out retries retryDelay year (attempt0 + 1))"
  by pat_completeness auto
termination
  by (relation "measure (\<lambda>(lib, world, out, retries, retryDelay, year, attempt0).
        nat (retries - attempt0))") auto

declare jobLoop.simps [simp del]

text \<open>A worker runs the loop on each job it receives from the channel, one after the other.\<close>

definition worker ::
  "'u golib \<Rightarrow> 'u world \<Rightarrow> string \<Rightarrow> int \<Rightarrow> int \<Rightarrow> int list \<Rightarrow> event list" where
  "worker lib world out retries retryDelay js =
     concat (map (\<lambda>y. jobLoop lib world out retries retryDelay y 0) js)"

text \<open>
  The channel hands each job to one worker; \<open>delivery k\<close> is the worker (counted from 0)
  that receives the \<open>k\<close>-th job sent.
\<close>

definition jobsOf :: "(nat \<Rightarrow> nat) \<Rightarrow> nat \<Rightarrow> int list \<Rightarrow> int list" where
  "jobsOf delivery i years =
     map snd (filter (\<lambda>(k, y). delivery k = i) (enumerate 0 years))"

text \<open>The run of the command: the events of each of its goroutines.\<close>

definition main :: "'u golib \<Rightarrow> 'u world \<Rightarrow> (nat \<Rightarrow> nat) \<Rightarrow> flags \<Rightarrow> event list list" where
  "main lib world delivery f =
     (if flag_concurrency f \<le> 1
      then [sequential lib world (flag_out f) (yearsOf f)]
      else map (\<lambda>i. worker lib world (flag_out f) (flag_retries f) (flag_retryDelay f)
                   (jobsOf delivery i (yearsOf f)))
             [0..<nat (flag_concurrency f)])"

text \<open>The outcome of a year in a run: whether it was done, and the attempts made on it.\<close>

definition succeeded :: "event list list \<Rightarrow> int \<Rightarrow> bool" where
  "succeeded logs y = list_ex (\<lambda>log. Done y \<in> set log) logs"

fun isAttemptOn :: "int \<Rightarrow> event \<Rightarrow> bool" where
  "isAttemptOn y (Attempt y' k r) = (y' = y)"
| "isAttemptOn y e = False"

fun isSleep :: "event \<Rightarrow> bool" where
  "isSleep (Sleep d) = True"
| "isSleep e = False"

definition attempts :: "int \<Rightarrow> event list \<Rightarrow> nat" where
  "attempts y log = length (filter (isAttemptOn y) log)"

section \<open>The rules of the specification\<close>

text \<open>
  The rule set of the header mapper as the specification lists it: the roles in their
  fixed order, each with the words that select it. The role of a lower-cased text is that
  of the first rule with a word the text contains.
\<close>

definition spec_rules :: "(string \<times> string list) list" where
  "spec_rules =
     [(''date'', [''date'']),
      (''cause'', [''cause'', ''case'', ''title'']),
      (''subject'', [''subject'']),
      (''summary'', [''summary'']),
      (''pdf'', [''view'', ''pdf''])]"

definition spec_role :: "string \<Rightarrow> string option" where
  "spec_role lower =
     map_option fst (find (\<lambda>(role, words). list_ex (Contains lower) words) spec_rules)"

text \<open>The role of a header cell: none when its trimmed text is empty.\<close>

definition cellRole :: "'u golib \<Rightarrow> string \<Rightarrow> string option" where
  "cellRole lib h =
     (if TrimSpace h = [] then None else spec_role (ToLower lib (TrimSpace h)))"

text \<open>
  The field of a role as the specification reads it: from the column the header map gives
  when that column exists in the row, else from the default position moved by the shift,
  and empty when the row has no such position.
\<close>

definition spec_field :: "(string \<rightharpoonup> nat) \<Rightarrow> string list \<Rightarrow> string \<Rightarrow> nat \<Rightarrow> nat \<Rightarrow> string" where
  "spec_field headerMap cols role dflt shift =
     (if (\<exists>idx. headerMap role = Some idx \<and> idx < length cols)
      then TrimSpace (cols ! the (headerMap role))
      else if dflt + shift < length cols then TrimSpace (cols ! (dflt + shift))
      else [])"

text \<open>An anchor the link resolver selects.\<close>

definition spec_pdfAnchor :: "'u golib \<Rightarrow> string option \<Rightarrow> bool" where
  "spec_pdfAnchor lib a =
     (case a of
        None \<Rightarrow> False
      | Some href \<Rightarrow>
          HasSuffix (ToLower lib (TrimSpace href)) ''.pdf''
          \<or> Contains (ToLower lib (TrimSpace href)) ''view-pdf'')"

text \<open>
  What a call of \<open>ScrapeYear\<close> did to the file system, read from its trace: it wrote a
  non-empty list of records (the encoder returned without error); it created the file
  (\<open>os.Create\<close> also truncates a file that exists) or wrote to it; it called the file
  system at all.
\<close>

definition wroteRecords :: "trace \<Rightarrow> bool" where
  "wroteRecords tr =
     list_ex (\<lambda>(c, ok). ok \<and> (case c of EncodeJSON f js \<Rightarrow> js \<noteq> [] | _ \<Rightarrow> False)) tr"

definition touchedFile :: "trace \<Rightarrow> bool" where
  "touchedFile tr =
     list_ex (\<lambda>(c, ok). ok \<and> (case c of Create f \<Rightarrow> True | EncodeJSON f js \<Rightarrow> True | _ \<Rightarrow> False)) tr"

definition touchedDisk :: "trace \<Rightarrow> bool" where
  "touchedDisk tr =
     list_ex (\<lambda>(c, ok). case c of HttpGet u \<Rightarrow> False | _ \<Rightarrow> True) tr"

section \<open>Sample inputs\<close>

text \<open>
  A library for the closed examples below. On the ASCII strings used there its functions
  return what the Go functions return: lower-casing of the letters A to Z, a URL that is
  absolute when it begins with a scheme, a relative path appended to a base that ends
  with a slash, and a file name appended to a clean directory name.
\<close>

definition asciiLower :: "char \<Rightarrow> char" where
  "asciiLower c =
     (case map_of (zip ''ABCDEFGHIJKLMNOPQRSTUVWXYZ'' ''abcdefghijklmnopqrstuvwxyz'') c of
        None \<Rightarrow> c
      | Some l \<Rightarrow> l)"

definition sampleLib :: "string golib" where
  "sampleLib =
     \<lparr>ToLower = map asciiLower,
      url_Parse = Some,
      IsAbs = (\<lambda>u. HasPrefix u ''https://'' \<or> HasPrefix u ''http://''),
      ResolveReference = (\<lambda>base u. base @ u),
      filepath_Join = (\<lambda>dir name. dir @ ''/'' @ name),
      filepath_Clean = (\<lambda>p. p)\<rparr>"

definition sampleBase :: string where
  "sampleBase = ''https://www.sci.gov.in/''"

text \<open>The table of the scenario of the specification: a header row and one data row.\<close>

definition sampleTable :: table where
  "sampleTable =
     [\<lparr>ths = [''S.No'', ''Date of Judgment'', ''Cause Title'', ''Subject'', ''Summary'', ''View''],
       tds = [], anchors = []\<rparr>,
      \<lparr>ths = [],
       tds = [''1'', ''01-01-2016'', ''X vs Y'', ''Constitutional'', ''Summary text'', ''View''],
       anchors = [Some ''view-pdf/123'']\<rparr>]"

definition sampleDoc :: document where
  "sampleDoc = \<lparr>landmark_tables = [sampleTable], all_tables = [sampleTable]\<rparr>"

text \<open>A world that serves the sample page and where every call on the file system succeeds.\<close>

definition servingEnv :: "string env" where
  "servingEnv =
     \<lparr>http_Get = (\<lambda>u. Inr \<lparr>Status = ''200 OK'', StatusCode = 200, Body = ''<html>'',
                              RequestURL = sampleBase\<rparr>),
      NewDocumentFromReader = (\<lambda>b. Inr sampleDoc),
      os_MkdirAll = (\<lambda>d. None),
      os_Create = (\<lambda>p. None),
      Encode = (\<lambda>p js. None)\<rparr>"

text \<open>A world where the request fails.\<close>

definition downEnv :: "string env" where
  "downEnv = servingEnv\<lparr>http_Get := (\<lambda>u. Inl (External ''connection refused''))\<rparr>"

text \<open>A world where the file is created and the encoder's write then fails.\<close>

definition diskFullEnv :: "string env" where
  "diskFullEnv = servingEnv\<lparr>Encode := (\<lambda>p js. Some (External ''no space left on device''))\<rparr>"

text \<open>A run where the first request for each year fails and every later one is served.\<close>

definition flakyWorld :: "string world" where
  "flakyWorld y k = (if k = 1 then downEnv else servingEnv)"

definition deadWorld :: "string world" where
  "deadWorld y k = downEnv"

definition sampleJudgment :: Judgment where
  "sampleJudgment =
     \<lparr>DateOfJudgment = ''01-01-2016'', CauseTitleCaseNo = ''X vs Y'',
      Subject = ''Constitutional'', JudgmentSummary = ''Summary text'',
      PDFLink = ''https://www.sci.gov.in/view-pdf/123''\<rparr>"

text \<open>A table whose only header cell holds a space.\<close>

definition blankHeaderTable :: table where
  "blankHeaderTable =
     [\<lparr>ths = ['' ''], tds = [], anchors = []\<rparr>,
      \<lparr>ths = [], tds = [''01-01-2016'', ''X vs Y''], anchors = []\<rparr>]"

text \<open>A table with two header cells for the cause.\<close>

definition twoCauseTable :: table where
  "twoCauseTable =
     [\<lparr>ths = [''Date'', ''Case No'', ''Cause Title''], tds = [], anchors = []\<rparr>]"

text \<open>A row without text and without links, and a row of five cells with a serial number.\<close>

definition emptyRow :: row where
  "emptyRow = \<lparr>ths = [], tds = ['' '', ''''], anchors = [None]\<rparr>"

definition serialCols :: "string list" where
  "serialCols = [''007'', ''01-01-2016'', ''X vs Y'', ''Constitutional'', ''Summary text'']"

text \<open>The flags \<open>-year 2016 -out output -retries 1\<close>, with the default concurrency 1.\<close>

definition retryFlags :: flags where
  "retryFlags =
     \<lparr>flag_year = 2016, flag_from = 2017, flag_to = 2018, flag_out = ''output'',
      flag_concurrency = 1, flag_retries = 1, flag_retryDelay = 2\<rparr>"

section \<open>Properties of the string functions\<close>

lemma runeWidth_0_iff:
  assumes "[] \<notin> set ws"
  shows "runeWidth ws s = 0 \<longleftrightarrow> (\<forall>w\<in>set ws. \<not> HasPrefix s w)"
proof (cases "find (HasPrefix s) ws")
  case None
  then have "runeWidth ws s = 0" by (simp add: runeWidth_def)
  moreover from None have "\<forall>w\<in>set ws. \<not> HasPrefix s w" by (simp add: find_None_iff)
  ultimately show ?thesis by simp
next
  case (Some w)
  then have "w \<in> set ws" "HasPrefix s w"
    by (auto simp: find_Some_iff)
  with assms Some show ?thesis
    by (auto simp: runeWidth_def)
qed

lemma trimRunes_fixed: "runeWidth ws s = 0 \<Longrightarrow> trimRunes ws s = s"
  by (simp add: trimRunes.simps)

lemma runeWidth_trimRunes: "runeWidth ws (trimRunes ws s) = 0"
proof (induction ws s rule: trimRunes.induct)
  case (1 ws s)
  then show ?case by (cases "runeWidth ws s = 0") (simp_all add: trimRunes.simps [of ws s])
qed

lemma trimRunes_drop: "\<exists>k. trimRunes ws s = drop k s"
proof (induction ws s rule: trimRunes.induct)
  case (1 ws s)
  show ?case
  proof (cases "runeWidth ws s = 0")
    case True
    then have "trimRunes ws s = drop 0 s" by (simp add: trimRunes.simps)
    then show ?thesis by blast
  next
    case False
    with "1" obtain k where "trimRunes ws (drop (runeWidth ws s) s) = drop k (drop (runeWidth ws s) s)"
      by blast
    with False have "trimRunes ws s = drop (runeWidth ws s + k) s"
      by (simp add: trimRunes.simps [of ws s] add.commute)
    then show ?thesis by blast
  qed
qed

lemma TrimRight_take: "\<exists>k. TrimRight s = take k s"
proof -
  obtain k where "trimRunes (map rev spaceRunes) (rev s) = drop k (rev s)"
    using trimRunes_drop by blast
  then have "TrimRight s = take (length s - k) s"
    by (simp add: TrimRight_def rev_drop)
  then show ?thesis by blast
qed

lemma HasPrefix_take: "HasPrefix (take k s) w \<Longrightarrow> HasPrefix s w"
  by (auto simp: HasPrefix_def min_def take_take split: if_splits)

lemma runeWidth_take:
  assumes "[] \<notin> set ws" and "runeWidth ws s = 0"
  shows "runeWidth ws (take k s) = 0"
proof -
  have "\<forall>w\<in>set ws. \<not> HasPrefix s w"
    using runeWidth_0_iff [OF assms(1), of s] assms(2) by blast
  then have "\<forall>w\<in>set ws. \<not> HasPrefix (take k s) w"
    by (blast dest: HasPrefix_take)
  then show ?thesis
    using runeWidth_0_iff [OF assms(1), of "take k s"] by blast
qed

lemma spaceRunes_nonempty: "[] \<notin> set spaceRunes"
  by (simp add: spaceRunes_def)

lemma TrimLeft_trimmed: "runeWidth spaceRunes (TrimLeft s) = 0"
  by (simp add: TrimLeft_def runeWidth_trimRunes)

lemma TrimRight_trimmed: "runeWidth (map rev spaceRunes) (rev (TrimRight s)) = 0"
  by (simp add: TrimRight_def runeWidth_trimRunes)

lemma TrimSpace_idem: "TrimSpace (TrimSpace s) = TrimSpace s"
proof -
  let ?t = "TrimLeft s" and ?p = "TrimRight (TrimLeft s)"
  obtain k where k: "?p = take k ?t" using TrimRight_take by blast
  have "runeWidth spaceRunes ?p = 0"
    unfolding k by (rule runeWidth_take) (rule spaceRunes_nonempty, rule TrimLeft_trimmed)
  then have l: "TrimLeft ?p = ?p" by (simp add: TrimLeft_def trimRunes_fixed)
  have "trimRunes (map rev spaceRunes) (rev ?p) = rev ?p"
    by (rule trimRunes_fixed) (rule TrimRight_trimmed)
  then have "TrimRight ?p = ?p" by (simp add: TrimRight_def)
  with l show ?thesis by (simp add: TrimSpace_def)
qed

lemma HasPrefix_iff: "HasPrefix s p \<longleftrightarrow> (\<exists>q. s = p @ q)"
proof
  assume "HasPrefix s p"
  then have "s = p @ drop (length p) s"
    by (metis HasPrefix_def append_take_drop_id)
  then show "\<exists>q. s = p @ q" ..
next
  assume "\<exists>q. s = p @ q"
  then show "HasPrefix s p" by (auto simp: HasPrefix_def)
qed

lemma Contains_iff: "Contains s sub \<longleftrightarrow> (\<exists>p q. s = p @ sub @ q)"
proof (induction s)
  case Nil
  then show ?case by simp
next
  case (Cons c cs)
  show ?case
  proof
    assume "Contains (c # cs) sub"
    then consider "HasPrefix (c # cs) sub" | "Contains cs sub" by auto
    then show "\<exists>p q. c # cs = p @ sub @ q"
    proof cases
      case 1
      then obtain q where "c # cs = [] @ sub @ q" by (auto simp: HasPrefix_iff)
      then show ?thesis by blast
    next
      case 2
      with Cons obtain p q where "cs = p @ sub @ q" by blast
      then have "c # cs = (c # p) @ sub @ q" by simp
      then show ?thesis by blast
    qed
  next
    assume "\<exists>p q. c # cs = p @ sub @ q"
    then obtain p q where pq: "c # cs = p @ sub @ q" by blast
    show "Contains (c # cs) sub"
    proof (cases p)
      case Nil
      with pq have "HasPrefix (c # cs) sub" by (auto simp: HasPrefix_iff)
      then show ?thesis by simp
    next
      case (Cons a p')
      with pq have "cs = p' @ sub @ q" by simp
      with Cons.IH have "Contains cs sub" by blast
      then show ?thesis by simp
    qed
  qed
qed

lemma Contains_inner: "Contains s (a @ b @ c) \<Longrightarrow> Contains s b"
proof -
  assume "Contains s (a @ b @ c)"
  then obtain p q where "s = p @ (a @ b @ c) @ q" by (auto simp: Contains_iff)
  then have "s = (p @ a) @ b @ (c @ q)" by simp
  then show ?thesis unfolding Contains_iff by blast
qed

lemma view_pdf_inner: "Contains s ''/view-pdf/'' \<Longrightarrow> Contains s ''view-pdf''"
  using Contains_inner [of s "''/''" "''view-pdf''" "''/''"] by simp

lemma spec_role_chain:
  "spec_role lower =
     (if Contains lower ''date'' then Some ''date''
      else if Contains lower ''cause'' \<or> Contains lower ''case'' \<or> Contains lower ''title''
        then Some ''cause''
      else if Contains lower ''subject'' then Some ''subject''
      else if Contains lower ''summary'' then Some ''summary''
      else if Contains lower ''view'' \<or> Contains lower ''pdf'' then Some ''pdf''
      else None)"
  by (simp add: spec_role_def spec_rules_def)

lemma headerStep_role:
  "headerStep lib i h st =
     (if TrimSpace h = [] then st
      else (case cellRole lib h of None \<Rightarrow> fst st | Some r \<Rightarrow> (fst st)(r \<mapsto> i), True))"
  by (simp add: headerStep_def cellRole_def spec_role_chain Let_def)

lemma headerLoop_snoc:
  "headerLoop lib i (hs @ [h]) st = headerStep lib (i + length hs) h (headerLoop lib i hs st)"
  by (induction hs arbitrary: i st) simp_all

lemma headerLoop_flag:
  "snd (headerLoop lib i hs st) \<longleftrightarrow> snd st \<or> (\<exists>h\<in>set hs. TrimSpace h \<noteq> [])"
  by (induction hs arbitrary: i st) (auto simp: headerStep_role)

lemma cellRole_empty: "TrimSpace h = [] \<Longrightarrow> cellRole lib h = None"
  by (simp add: cellRole_def)

lemma headerLoop_snoc_map:
  "fst (headerLoop lib i (hs @ [h]) st) r =
     (if cellRole lib h = Some r then Some (i + length hs) else fst (headerLoop lib i hs st) r)"
  by (auto simp: headerLoop_snoc headerStep_role cellRole_empty split: option.splits)

lemma headerLoop_map:
  "fst (headerLoop lib i hs st) r = Some n \<longleftrightarrow>
     (\<exists>k<length hs. n = i + k \<and> cellRole lib (hs ! k) = Some r
        \<and> (\<forall>j. k < j \<and> j < length hs \<longrightarrow> cellRole lib (hs ! j) \<noteq> Some r))
     \<or> (fst st r = Some n \<and> (\<forall>j<length hs. cellRole lib (hs ! j) \<noteq> Some r))"
proof (induction hs rule: rev_induct)
  case Nil
  then show ?case by simp
next
  case (snoc h hs)
  show ?case
  proof (cases "cellRole lib h = Some r")
    case True
    have "(\<exists>k<length (hs @ [h]). n = i + k \<and> cellRole lib ((hs @ [h]) ! k) = Some r
        \<and> (\<forall>j. k < j \<and> j < length (hs @ [h]) \<longrightarrow> cellRole lib ((hs @ [h]) ! j) \<noteq> Some r))
      \<longleftrightarrow> n = i + length hs"
    proof
      assume "\<exists>k<length (hs @ [h]). n = i + k \<and> cellRole lib ((hs @ [h]) ! k) = Some r
        \<and> (\<forall>j. k < j \<and> j < length (hs @ [h]) \<longrightarrow> cellRole lib ((hs @ [h]) ! j) \<noteq> Some r)"
      then obtain k where k: "k < length (hs @ [h])" "n = i + k"
        "\<forall>j. k < j \<and> j < length (hs @ [h]) \<longrightarrow> cellRole lib ((hs @ [h]) ! j) \<noteq> Some r"
        by blast
      have "\<not> k < length hs"
      proof
        assume "k < length hs"
        with k(3) have "cellRole lib ((hs @ [h]) ! length hs) \<noteq> Some r"
          by (metis length_append_singleton lessI)
        with True show False by simp
      qed
      with k(1) have "k = length hs" by simp
      with k(2) show "n = i + length hs" by simp
    next
      assume "n = i + length hs"
      with True show "\<exists>k<length (hs @ [h]). n = i + k \<and> cellRole lib ((hs @ [h]) ! k) = Some r
        \<and> (\<forall>j. k < j \<and> j < length (hs @ [h]) \<longrightarrow> cellRole lib ((hs @ [h]) ! j) \<noteq> Some r)"
        by (intro exI [of _ "length hs"]) auto
    qed
    moreover have "\<not> (\<forall>j<length (hs @ [h]). cellRole lib ((hs @ [h]) ! j) \<noteq> Some r)"
      using True by (auto intro: exI [of _ "length hs"])
    ultimately show ?thesis
      using True by (auto simp: headerLoop_snoc_map)
  next
    case False
    have a: "(\<exists>k<length (hs @ [h]). n = i + k \<and> cellRole lib ((hs @ [h]) ! k) = Some r
        \<and> (\<forall>j. k < j \<and> j < length (hs @ [h]) \<longrightarrow> cellRole lib ((hs @ [h]) ! j) \<noteq> Some r))
      \<longleftrightarrow> (\<exists>k<length hs. n = i + k \<and> cellRole lib (hs ! k) = Some r
        \<and> (\<forall>j. k < j \<and> j < length hs \<longrightarrow> cellRole lib (hs ! j) \<noteq> Some r))"
      using False by (auto simp: nth_append less_Suc_eq)
    have b: "(\<forall>j<length (hs @ [h]). cellRole lib ((hs @ [h]) ! j) \<noteq> Some r)
      \<longleftrightarrow> (\<forall>j<length hs. cellRole lib (hs ! j) \<noteq> Some r)"
      using False by (auto simp: nth_append less_Suc_eq)
    have "fst (headerLoop lib i (hs @ [h]) st) r = fst (headerLoop lib i hs st) r"
      using False by (simp add: headerLoop_snoc_map)
    with snoc a b show ?thesis by simp
  qed
qed

lemma readBy_spec_field:
  "readBy headerMap cols role (dflt + shift) = spec_field headerMap cols role dflt shift"
  by (cases "headerMap role") (simp_all add: readBy_def spec_field_def EqText_def)

lemma rowLoop_map_filter:
  "rowLoop lib base headerMap hasHeader i rows =
     List.map_filter (\<lambda>(k, s). rowStep lib base headerMap hasHeader k s) (enumerate i rows)"
  by (induction rows arbitrary: i) (simp_all add: List.map_filter_simps split: option.splits)

lemma TrimSpace_007: "TrimSpace ''007'' = ''007''"
  by code_simp

lemma pdfLoop_skip:
  "\<not> spec_pdfAnchor lib a \<Longrightarrow> pdfLoop lib base (a # as) = pdfLoop lib base as"
  by (cases a) (auto simp: spec_pdfAnchor_def Let_def dest: view_pdf_inner)

lemma pdfLoop_hit:
  "spec_pdfAnchor lib (Some href) \<Longrightarrow> pdfLoop lib base (Some href # as) = resolve lib base href"
  by (auto simp: spec_pdfAnchor_def Let_def)

lemma pdfLoop_none: "\<forall>a\<in>set as. \<not> spec_pdfAnchor lib a \<Longrightarrow> pdfLoop lib base as = []"
  by (induction as) (simp_all add: pdfLoop_skip del: pdfLoop.simps(2))

lemma pdfLoop_first:
  "\<forall>a\<in>set pre. \<not> spec_pdfAnchor lib a \<Longrightarrow> spec_pdfAnchor lib (Some href) \<Longrightarrow>
     pdfLoop lib base (pre @ Some href # post) = resolve lib base href"
  by (induction pre) (simp_all add: pdfLoop_skip pdfLoop_hit del: pdfLoop.simps(2))

lemma jobLoop_all_fail:
  assumes "\<forall>k. fst (ScrapeYear lib (world y k) y (filepath_Clean lib out)) \<noteq> None"
    and "a \<le> R"
  shows "jobLoop lib world out R D y a =
     concat (map (\<lambda>k. [Attempt y k (ScrapeYear lib (world y k) y (filepath_Clean lib out)),
                        Sleep D]) [a + 1..R])
     @ [Attempt y (R + 1) (ScrapeYear lib (world y (R + 1)) y (filepath_Clean lib out)),
        GaveUp y (R + 1)]"
  using assms(2)
proof (induction "nat (R - a)" arbitrary: a)
  case 0
  then have "a = R" by simp
  with assms(1) show ?case by (simp add: jobLoop.simps [of lib world out R D y R])
next
  case (Suc n)
  then have lt: "a < R" and n: "n = nat (R - (a + 1))" and le: "a + 1 \<le> R" by simp_all
  from Suc(1) [OF n le] lt assms(1) show ?case
    by (simp add: jobLoop.simps [of lib world out R D y a] upto_rec1 [of "a + 1" R])
qed

lemma jobLoop_world_cong:
  "world' y = world y \<Longrightarrow>
     jobLoop lib world' out R D y a = jobLoop lib world out R D y a"
proof (induction lib world out R D y a rule: jobLoop.induct)
  case (1 lib world out retries retryDelay year attempt0)
  then show ?case
    by (simp add: jobLoop.simps [of lib world out retries retryDelay year attempt0]
        jobLoop.simps [of lib world' out retries retryDelay year attempt0])
qed

lemma worker_world_cong:
  "\<forall>y\<in>set js. world' y = world y \<Longrightarrow>
     worker lib world' out R D js = worker lib world out R D js"
proof -
  assume "\<forall>y\<in>set js. world' y = world y"
  then have "map (\<lambda>y. jobLoop lib world' out R D y 0) js = map (\<lambda>y. jobLoop lib world out R D y 0) js"
    by (intro map_cong refl jobLoop_world_cong) blast
  then show ?thesis by (simp only: worker_def)
qed

lemma attempts_rounds:
  "attempts y (concat (map (\<lambda>k. [Attempt y k (f k), Sleep D]) ks) @ [Attempt y m r, GaveUp y m'])
     = length ks + 1"
  by (induction ks) (simp_all add: attempts_def)

lemma sleeps_rounds:
  "filter isSleep (concat (map (\<lambda>k. [Attempt y k (f k), Sleep D]) ks) @ [Attempt y m r, GaveUp y m'])
     = replicate (length ks) (Sleep D)"
  by (induction ks) simp_all

lemma jobLoop_all_fail_count:
  assumes "\<forall>k. fst (ScrapeYear lib (world y k) y (filepath_Clean lib out)) \<noteq> None"
    and "0 \<le> R"
  shows "attempts y (jobLoop lib world out R D y 0) = nat R + 1"
    and "filter isSleep (jobLoop lib world out R D y 0) = replicate (nat R) (Sleep D)"
proof -
  have eq: "jobLoop lib world out R D y 0 =
     concat (map (\<lambda>k. [Attempt y k (ScrapeYear lib (world y k) y (filepath_Clean lib out)),
                        Sleep D]) [0 + 1..R])
     @ [Attempt y (R + 1) (ScrapeYear lib (world y (R + 1)) y (filepath_Clean lib out)),
        GaveUp y (R + 1)]"
    using assms by (rule jobLoop_all_fail)
  show "attempts y (jobLoop lib world out R D y 0) = nat R + 1"
    unfolding eq attempts_rounds by simp
  show "filter isSleep (jobLoop lib world out R D y 0) = replicate (nat R) (Sleep D)"
    unfolding eq sleeps_rounds by simp
qed

lemma jobLoop_negative_retries:
  assumes "fst (ScrapeYear lib (world y 1) y (filepath_Clean lib out)) \<noteq> None" and "R < 0"
  shows "jobLoop lib world out R D y 0 =
     [Attempt y 1 (ScrapeYear lib (world y 1) y (filepath_Clean lib out)), GaveUp y 1]"
  using assms by (simp add: jobLoop.simps [of lib world out R D y 0])

lemma sample_extract: "extractJudgments sampleLib sampleBase sampleDoc = [sampleJudgment]"
  by code_simp

lemma down_fails: "fst (ScrapeYear lib downEnv y out) \<noteq> None"
  by (simp add: ScrapeYear_def downEnv_def servingEnv_def)

lemma serving_run:
  "2016 \<le> y \<Longrightarrow> y \<le> 2025 \<Longrightarrow>
   ScrapeYear sampleLib servingEnv y out =
     (None, [(HttpGet (pageURL y), True), (MkdirAll out, True),
             (Create (outFile sampleLib out y), True),
             (EncodeJSON (outFile sampleLib out y) [sampleJudgment], True)])"
  by (simp add: ScrapeYear_def servingEnv_def sample_extract)

lemma diskFull_run:
  "2016 \<le> y \<Longrightarrow> y \<le> 2025 \<Longrightarrow>
   ScrapeYear sampleLib diskFullEnv y out =
     (Some (External ''no space left on device''),
      [(HttpGet (pageURL y), True), (MkdirAll out, True),
       (Create (outFile sampleLib out y), True),
       (EncodeJSON (outFile sampleLib out y) [sampleJudgment], False)])"
  by (simp add: ScrapeYear_def diskFullEnv_def servingEnv_def sample_extract)

section \<open>The row extractor\<close>

text \<open>
  C1. For every data row and each of the roles date, cause, subject and summary: when
  the header map has a column index for the role and the index is below the number of
  cells of the row, the field is the text of that column, with no shift applied;
  otherwise it is the text at the default position (date 0, cause 1, subject 2,
  summary 3) plus the shift detected for the row, or empty when the row has no cell at
  that position.
\<close>

theorem field_read_by_header_or_position:
  "readBy headerMap cols role (dflt + serialShift cols) =
     spec_field headerMap cols role dflt (serialShift cols)
   \<and> (rowStep lib base headerMap hasHeader i s = Some j \<longrightarrow>
        DateOfJudgment j = spec_field headerMap (tds s) ''date'' 0 (serialShift (tds s))
        \<and> CauseTitleCaseNo j = spec_field headerMap (tds s) ''cause'' 1 (serialShift (tds s))
        \<and> Subject j = spec_field headerMap (tds s) ''subject'' 2 (serialShift (tds s))
        \<and> JudgmentSummary j =
            spec_field headerMap (tds s) ''summary'' 3 (serialShift (tds s)))"
proof -
  have "rowStep lib base headerMap hasHeader i s = Some j \<longrightarrow>
    j = \<lparr>DateOfJudgment = readBy headerMap (tds s) ''date'' (0 + serialShift (tds s)),
          CauseTitleCaseNo = readBy headerMap (tds s) ''cause'' (1 + serialShift (tds s)),
          Subject = readBy headerMap (tds s) ''subject'' (2 + serialShift (tds s)),
          JudgmentSummary = readBy headerMap (tds s) ''summary'' (3 + serialShift (tds s)),
          PDFLink = pdfLoop lib base (anchors s)\<rparr>"
    by (auto simp: rowStep_def Let_def split: if_splits)
  then have "rowStep lib base headerMap hasHeader i s = Some j \<longrightarrow>
        DateOfJudgment j = spec_field headerMap (tds s) ''date'' 0 (serialShift (tds s))
        \<and> CauseTitleCaseNo j = spec_field headerMap (tds s) ''cause'' 1 (serialShift (tds s))
        \<and> Subject j = spec_field headerMap (tds s) ''subject'' 2 (serialShift (tds s))
        \<and> JudgmentSummary j =
            spec_field headerMap (tds s) ''summary'' 3 (serialShift (tds s))"
    by (auto simp only: readBy_spec_field Judgment.simps)
  then show ?thesis
    by (simp only: readBy_spec_field simp_thms)
qed

theorem field_read_witness:
  "rowStep sampleLib sampleBase (fst (buildHeader sampleLib sampleTable)) True 1
     (sampleTable ! 1) = Some sampleJudgment
   \<and> DateOfJudgment sampleJudgment =
       spec_field (fst (buildHeader sampleLib sampleTable)) (tds (sampleTable ! 1)) ''date'' 0
         (serialShift (tds (sampleTable ! 1)))"
proof -
  have h: "rowStep sampleLib sampleBase (fst (buildHeader sampleLib sampleTable)) True 1
     (sampleTable ! 1) = Some sampleJudgment"
    by code_simp
  from h field_read_by_header_or_position [where lib = sampleLib and base = sampleBase
      and headerMap = "fst (buildHeader sampleLib sampleTable)" and hasHeader = True
      and i = 1 and s = "sampleTable ! 1" and j = sampleJudgment]
  show ?thesis by blast
qed

text \<open>
  C2. The shift of a row is 1 exactly when the row has at least five cells and the
  trimmed text of its first cell is non-empty, at most six characters long and made of
  the digits 0 to 9 only; it is 0 otherwise. A row of five or more cells whose first
  cell is 007 has shift 1, and a row of exactly four cells has shift 0 whatever its
  first cell holds.
\<close>

theorem serial_shift_iff:
  "(serialShift cols = 1 \<longleftrightarrow>
      5 \<le> length cols \<and> TrimSpace (cols ! 0) \<noteq> [] \<and> length (TrimSpace (cols ! 0)) \<le> 6
      \<and> (\<forall>c\<in>set (TrimSpace (cols ! 0)). CHR ''0'' \<le> c \<and> c \<le> CHR ''9''))
   \<and> (serialShift cols \<noteq> 1 \<longrightarrow> serialShift cols = 0)
   \<and> (5 \<le> length cols \<and> cols ! 0 = ''007'' \<longrightarrow> serialShift cols = 1)
   \<and> (length cols = 4 \<longrightarrow> serialShift cols = 0)"
proof -
  have iff: "serialShift cols = 1 \<longleftrightarrow>
      5 \<le> length cols \<and> TrimSpace (cols ! 0) \<noteq> [] \<and> length (TrimSpace (cols ! 0)) \<le> 6
      \<and> (\<forall>c\<in>set (TrimSpace (cols ! 0)). CHR ''0'' \<le> c \<and> c \<le> CHR ''9'')"
    by (auto simp: serialShift_def isNumericShort_def EqText_def TrimSpace_idem Let_def
        list_all_iff not_less)
  have two: "serialShift cols \<noteq> 1 \<longrightarrow> serialShift cols = 0"
    by (simp add: serialShift_def Let_def)
  have seven: "5 \<le> length cols \<and> cols ! 0 = ''007'' \<longrightarrow> serialShift cols = 1"
    unfolding iff by (auto simp: TrimSpace_007)
  have four: "length cols = 4 \<longrightarrow> serialShift cols = 0"
    by (simp add: serialShift_def)
  from iff two seven four show ?thesis by blast
qed

theorem serial_shift_witness:
  "5 \<le> length serialCols \<and> serialCols ! 0 = ''007'' \<and> serialShift serialCols = 1
   \<and> length (butlast serialCols) = 4 \<and> serialShift (butlast serialCols) = 0"
proof -
  have "5 \<le> length serialCols \<and> serialCols ! 0 = ''007''" by code_simp
  moreover have "length (butlast serialCols) = 4" by code_simp
  ultimately show ?thesis
    using serial_shift_iff [of serialCols] serial_shift_iff [of "butlast serialCols"] by simp
qed

text \<open>
  C8. A data row yields a record exactly when one of its five fields (date, cause,
  subject, summary, pdf) is non-empty: every record produced has a non-empty field, a
  data row that produces none has its five fields empty, and the records produced are
  those of the rows, in order, with the rows that produce none left out.
\<close>

theorem record_kept_iff_some_field:
  "(rowStep lib base headerMap hasHeader i s = Some j \<longrightarrow>
      DateOfJudgment j \<noteq> [] \<or> CauseTitleCaseNo j \<noteq> [] \<or> Subject j \<noteq> []
      \<or> JudgmentSummary j \<noteq> [] \<or> PDFLink j \<noteq> [])
   \<and> (\<not> (i = 0 \<and> hasHeader) \<and> tds s \<noteq> []
        \<and> rowStep lib base headerMap hasHeader i s = None \<longrightarrow>
      spec_field headerMap (tds s) ''date'' 0 (serialShift (tds s)) = []
      \<and> spec_field headerMap (tds s) ''cause'' 1 (serialShift (tds s)) = []
      \<and> spec_field headerMap (tds s) ''subject'' 2 (serialShift (tds s)) = []
      \<and> spec_field headerMap (tds s) ''summary'' 3 (serialShift (tds s)) = []
      \<and> pdfLoop lib base (anchors s) = [])
   \<and> rowLoop lib base headerMap hasHeader i rows =
       List.map_filter (\<lambda>(k, s). rowStep lib base headerMap hasHeader k s) (enumerate i rows)"
proof -
  have kept: "rowStep lib base headerMap hasHeader i s = Some j \<longrightarrow>
      DateOfJudgment j \<noteq> [] \<or> CauseTitleCaseNo j \<noteq> [] \<or> Subject j \<noteq> []
      \<or> JudgmentSummary j \<noteq> [] \<or> PDFLink j \<noteq> []"
    by (auto simp: rowStep_def Let_def split: if_splits)
  have dropped: "\<not> (i = 0 \<and> hasHeader) \<and> tds s \<noteq> []
        \<and> rowStep lib base headerMap hasHeader i s = None \<longrightarrow>
      readBy headerMap (tds s) ''date'' (0 + serialShift (tds s)) = []
      \<and> readBy headerMap (tds s) ''cause'' (1 + serialShift (tds s)) = []
      \<and> readBy headerMap (tds s) ''subject'' (2 + serialShift (tds s)) = []
      \<and> readBy headerMap (tds s) ''summary'' (3 + serialShift (tds s)) = []
      \<and> pdfLoop lib base (anchors s) = []"
    by (auto simp: rowStep_def Let_def split: if_splits)
  from kept dropped show ?thesis
    by (simp only: readBy_spec_field rowLoop_map_filter)
qed

theorem record_kept_witness:
  "rowStep sampleLib sampleBase Map.empty False 0 emptyRow = None
   \<and> tds emptyRow \<noteq> []
   \<and> spec_field Map.empty (tds emptyRow) ''date'' 0 (serialShift (tds emptyRow)) = []
   \<and> pdfLoop sampleLib sampleBase (anchors emptyRow) = []
   \<and> rowStep sampleLib sampleBase (fst (buildHeader sampleLib sampleTable)) True 1
        (sampleTable ! 1) = Some sampleJudgment
   \<and> DateOfJudgment sampleJudgment \<noteq> []"
proof -
  have none: "rowStep sampleLib sampleBase Map.empty False 0 emptyRow = None"
    by code_simp
  have cells: "tds emptyRow \<noteq> []"
    by code_simp
  have some: "rowStep sampleLib sampleBase (fst (buildHeader sampleLib sampleTable)) True 1
        (sampleTable ! 1) = Some sampleJudgment"
    by code_simp
  have date: "DateOfJudgment sampleJudgment \<noteq> []"
    by code_simp
  from none cells some date
    record_kept_iff_some_field [of sampleLib sampleBase Map.empty False 0 emptyRow]
    record_kept_iff_some_field [of sampleLib sampleBase "fst (buildHeader sampleLib sampleTable)"
      True 1 "sampleTable ! 1" sampleJudgment]
  show ?thesis by simp
qed

section \<open>The header mapper\<close>

text \<open>
  C7, as amended. The text of each header cell of the first row is trimmed; a cell whose
  trimmed text is empty changes nothing, and otherwise the trimmed text is lower-cased
  and tested against the ordered rules (date; cause, case or title; subject; summary;
  view or pdf), the role of the first rule that matches being the only one assigned, so
  that no cell holds two roles. hasHeader is true exactly when a header cell of the
  first row has a non-empty trimmed text, and the first row is skipped by the row
  extractor exactly when hasHeader is true: without a header it is read as any other row.
\<close>

theorem header_rules_first_match:
  "headerStep lib i h st =
     (if TrimSpace h = [] then st
      else (case spec_role (ToLower lib (TrimSpace h)) of
              None \<Rightarrow> fst st
            | Some r \<Rightarrow> (fst st)(r \<mapsto> i), True))
   \<and> (fst (buildHeader lib rows) r1 = Some k \<and> fst (buildHeader lib rows) r2 = Some k
        \<longrightarrow> r1 = r2)
   \<and> (snd (buildHeader lib rows) \<longleftrightarrow> (\<exists>h\<in>set (firstRowHeaders rows). TrimSpace h \<noteq> []))
   \<and> rowLoop lib base headerMap hasHeader 0 (s # ss) =
       (if hasHeader then []
        else case rowStep lib base headerMap hasHeader (Suc n) s of None \<Rightarrow> [] | Some j \<Rightarrow> [j])
       @ rowLoop lib base headerMap hasHeader 1 ss"
proof -
  have step: "headerStep lib i h st =
     (if TrimSpace h = [] then st
      else (case spec_role (ToLower lib (TrimSpace h)) of
              None \<Rightarrow> fst st
            | Some r \<Rightarrow> (fst st)(r \<mapsto> i), True))"
    by (simp add: headerStep_role cellRole_def)
  have one: "fst (buildHeader lib rows) r1 = Some k \<and> fst (buildHeader lib rows) r2 = Some k
        \<longrightarrow> r1 = r2"
    by (auto simp: buildHeader_def headerLoop_map)
  have flag: "snd (buildHeader lib rows) \<longleftrightarrow> (\<exists>h\<in>set (firstRowHeaders rows). TrimSpace h \<noteq> [])"
    by (simp add: buildHeader_def headerLoop_flag)
  have "rowStep lib base headerMap False 0 s = rowStep lib base headerMap False (Suc n) s"
    by (simp add: rowStep_def)
  moreover have "rowStep lib base headerMap True 0 s = None"
    by (simp add: rowStep_def)
  ultimately have skip: "rowLoop lib base headerMap hasHeader 0 (s # ss) =
       (if hasHeader then []
        else case rowStep lib base headerMap hasHeader (Suc n) s of None \<Rightarrow> [] | Some j \<Rightarrow> [j])
       @ rowLoop lib base headerMap hasHeader 1 ss"
    by (cases hasHeader) (simp_all split: option.splits)
  from step one flag skip show ?thesis by blast
qed

text \<open>
  A header cell that holds a single space has a non-empty text, and hasHeader is false.
\<close>

theorem blank_header_counterexample:
  "firstRowHeaders blankHeaderTable = ['' ''] \<and> '' '' \<noteq> []
   \<and> \<not> snd (buildHeader sampleLib blankHeaderTable)"
  by code_simp

theorem header_rules_witness:
  "fst (buildHeader sampleLib sampleTable) ''date'' = Some 1
   \<and> snd (buildHeader sampleLib sampleTable)
   \<and> rowLoop sampleLib sampleBase (fst (buildHeader sampleLib sampleTable)) True 0 sampleTable
       = [sampleJudgment]"
proof -
  have a: "fst (buildHeader sampleLib sampleTable) ''date'' = Some 1" by code_simp
  have b: "\<exists>h\<in>set (firstRowHeaders sampleTable). TrimSpace h \<noteq> []" by code_simp
  have c: "rowLoop sampleLib sampleBase (fst (buildHeader sampleLib sampleTable)) True 1
             (tl sampleTable) = [sampleJudgment]" by code_simp
  have d: "sampleTable = hd sampleTable # tl sampleTable" by code_simp
  from a b c
    header_rules_first_match [of sampleLib 0 "''x''" "(Map.empty, False)" sampleTable "''date''" 1 "''date''"
      sampleBase "fst (buildHeader sampleLib sampleTable)" True "hd sampleTable" "tl sampleTable" 0]
  show ?thesis by (subst (2) d) simp
qed

text \<open>
  C10. When several header cells of the first row have the same role, the header map
  holds the index of the last of them: a role is mapped to an index exactly when the
  cell at that index has the role and no later cell has it.
\<close>

theorem header_last_match_wins:
  "fst (buildHeader lib rows) r = Some k \<longleftrightarrow>
     k < length (firstRowHeaders rows)
     \<and> cellRole lib (firstRowHeaders rows ! k) = Some r
     \<and> (\<forall>j. k < j \<and> j < length (firstRowHeaders rows)
            \<longrightarrow> cellRole lib (firstRowHeaders rows ! j) \<noteq> Some r)"
  by (auto simp: buildHeader_def headerLoop_map)

theorem header_last_match_witness:
  "cellRole sampleLib (firstRowHeaders twoCauseTable ! 1) = Some ''cause''
   \<and> cellRole sampleLib (firstRowHeaders twoCauseTable ! 2) = Some ''cause''
   \<and> fst (buildHeader sampleLib twoCauseTable) ''cause'' = Some 2"
proof -
  have "length (firstRowHeaders twoCauseTable) = 3" by code_simp
  moreover have "cellRole sampleLib (firstRowHeaders twoCauseTable ! 1) = Some ''cause''" by code_simp
  moreover have "cellRole sampleLib (firstRowHeaders twoCauseTable ! 2) = Some ''cause''" by code_simp
  moreover have "\<forall>j. 2 < j \<and> j < (3::nat) \<longrightarrow>
      cellRole sampleLib (firstRowHeaders twoCauseTable ! j) \<noteq> Some ''cause''" by auto
  ultimately show ?thesis
    using header_last_match_wins [of sampleLib twoCauseTable "''cause''" 2] by simp
qed

section \<open>The link resolver\<close>

text \<open>
  C4, as amended. The PDF field of a row is the resolution of the first anchor, in
  document order, whose trimmed and lower-cased href ends with .pdf or contains
  view-pdf; the anchors after it have no effect, and the field is empty when no anchor
  is selected. The resolution of an href is made on its trimmed text: an absolute one
  is returned trimmed, and otherwise unchanged; a relative one is resolved against the
  base URL of the page.
\<close>

theorem pdf_first_matching_anchor:
  "(rowStep lib base headerMap hasHeader i s = Some j \<longrightarrow> PDFLink j = pdfLoop lib base (anchors s))
   \<and> ((\<forall>a\<in>set pre. \<not> spec_pdfAnchor lib a) \<and> spec_pdfAnchor lib (Some href) \<longrightarrow>
        pdfLoop lib base (pre @ Some href # post) = resolve lib base href)
   \<and> ((\<forall>a\<in>set as. \<not> spec_pdfAnchor lib a) \<longrightarrow> pdfLoop lib base as = [])
   \<and> (TrimSpace href \<noteq> [] \<and> url_Parse lib (TrimSpace href) = Some u \<and> IsAbs lib u \<longrightarrow>
        resolve lib base href = TrimSpace href)
   \<and> (TrimSpace href \<noteq> [] \<and> url_Parse lib (TrimSpace href) = Some u \<and> \<not> IsAbs lib u \<longrightarrow>
        resolve lib base href = ResolveReference lib base u)"
proof -
  have "rowStep lib base headerMap hasHeader i s = Some j \<longrightarrow> PDFLink j = pdfLoop lib base (anchors s)"
    by (auto simp: rowStep_def Let_def split: if_splits)
  moreover have "(\<forall>a\<in>set pre. \<not> spec_pdfAnchor lib a) \<and> spec_pdfAnchor lib (Some href) \<longrightarrow>
        pdfLoop lib base (pre @ Some href # post) = resolve lib base href"
    by (simp add: pdfLoop_first)
  moreover have "(\<forall>a\<in>set as. \<not> spec_pdfAnchor lib a) \<longrightarrow> pdfLoop lib base as = []"
    by (simp add: pdfLoop_none)
  moreover have "TrimSpace href \<noteq> [] \<and> url_Parse lib (TrimSpace href) = Some u \<and> IsAbs lib u \<longrightarrow>
        resolve lib base href = TrimSpace href"
    by (simp add: resolve_def)
  moreover have "TrimSpace href \<noteq> [] \<and> url_Parse lib (TrimSpace href) = Some u \<and> \<not> IsAbs lib u \<longrightarrow>
        resolve lib base href = ResolveReference lib base u"
    by (simp add: resolve_def)
  ultimately show ?thesis by blast
qed

text \<open>
  An absolute href that ends with a space is selected, and it is not returned unchanged.
\<close>

theorem absolute_href_trimmed_counterexample:
  "spec_pdfAnchor sampleLib (Some ''https://x.gov/a.pdf '')
   \<and> url_Parse sampleLib ''https://x.gov/a.pdf '' = Some ''https://x.gov/a.pdf ''
   \<and> IsAbs sampleLib ''https://x.gov/a.pdf ''
   \<and> pdfLoop sampleLib sampleBase [Some ''https://x.gov/a.pdf ''] \<noteq> ''https://x.gov/a.pdf ''"
  by code_simp

theorem pdf_first_matching_witness:
  "spec_pdfAnchor sampleLib (Some ''view-pdf/123'')
   \<and> pdfLoop sampleLib sampleBase
        ([None, Some ''index.html''] @ Some ''view-pdf/123'' # [Some ''other.pdf''])
       = ''https://www.sci.gov.in/view-pdf/123''
   \<and> pdfLoop sampleLib sampleBase [None, Some ''index.html''] = []
   \<and> resolve sampleLib sampleBase '' https://x.gov/a.pdf'' = ''https://x.gov/a.pdf''"
proof -
  have pre: "\<forall>a\<in>set [None, Some ''index.html'']. \<not> spec_pdfAnchor sampleLib a"
    by code_simp
  have hit: "spec_pdfAnchor sampleLib (Some ''view-pdf/123'')"
    by code_simp
  have rel: "TrimSpace ''view-pdf/123'' \<noteq> []
      \<and> url_Parse sampleLib (TrimSpace ''view-pdf/123'') = Some ''view-pdf/123''
      \<and> \<not> IsAbs sampleLib ''view-pdf/123''
      \<and> ResolveReference sampleLib sampleBase ''view-pdf/123''
          = ''https://www.sci.gov.in/view-pdf/123''"
    by code_simp
  have abs: "TrimSpace '' https://x.gov/a.pdf'' = ''https://x.gov/a.pdf''
      \<and> url_Parse sampleLib ''https://x.gov/a.pdf'' = Some ''https://x.gov/a.pdf''
      \<and> IsAbs sampleLib ''https://x.gov/a.pdf''"
    by code_simp
  from pre hit rel abs
    pdf_first_matching_anchor [where lib = sampleLib and base = sampleBase
      and pre = "[None, Some ''index.html'']" and href = "''view-pdf/123''"
      and post = "[Some ''other.pdf'']" and as = "[None, Some ''index.html'']"
      and u = "''view-pdf/123''"]
    pdf_first_matching_anchor [where lib = sampleLib and base = sampleBase
      and href = "'' https://x.gov/a.pdf''" and u = "''https://x.gov/a.pdf''"]
  show ?thesis by simp
qed

section \<open>ScrapeYear\<close>

text \<open>
  C9. For a year below 2016 or above 2025, ScrapeYear returns an error at once: it makes
  no HTTP request and writes no file. A year from 2016 to 2025 goes on to the request
  for its page.
\<close>

theorem year_outside_range_rejected:
  "(year < 2016 \<or> year > 2025 \<longrightarrow>
      ScrapeYear lib w year outDir = (Some YearOutOfRange, []))
   \<and> (2016 \<le> year \<and> year \<le> 2025 \<longrightarrow>
      (\<exists>ok rest. snd (ScrapeYear lib w year outDir) = (HttpGet (pageURL year), ok) # rest))"
  by (auto simp: ScrapeYear_def Let_def split: sum.splits option.splits)

theorem year_outside_range_witness:
  "(2015::int) < 2016
   \<and> ScrapeYear sampleLib servingEnv 2015 ''output'' = (Some YearOutOfRange, [])"
  using year_outside_range_rejected [of 2015 sampleLib servingEnv "''output''"] by simp

text \<open>
  C6, as amended. An attempt that succeeds has written the complete, non-empty set of
  the records extracted to the output file of the year. An attempt that fails has not
  written the records; it has created no file and written to none unless the failure is
  that of the encoder, which runs once the file is created. When no record is
  extracted, the attempt fails before any directory is created and any file is written.
\<close>

theorem attempt_writes_all_or_fails:
  "(fst (ScrapeYear lib w year outDir) = None \<longrightarrow>
      (\<exists>resp doc. http_Get w (pageURL year) = Inr resp
         \<and> NewDocumentFromReader w (Body resp) = Inr doc
         \<and> extractJudgments lib (RequestURL resp) doc \<noteq> []
         \<and> last (snd (ScrapeYear lib w year outDir)) =
             (EncodeJSON (outFile lib outDir year) (extractJudgments lib (RequestURL resp) doc),
              True)))
   \<and> (fst (ScrapeYear lib w year outDir) \<noteq> None \<longrightarrow>
        \<not> wroteRecords (snd (ScrapeYear lib w year outDir))
        \<and> (touchedFile (snd (ScrapeYear lib w year outDir)) \<longleftrightarrow>
             (\<exists>js. (EncodeJSON (outFile lib outDir year) js, False)
                     \<in> set (snd (ScrapeYear lib w year outDir)))))
   \<and> (http_Get w (pageURL year) = Inr resp \<and> NewDocumentFromReader w (Body resp) = Inr doc
        \<and> extractJudgments lib (RequestURL resp) doc = [] \<longrightarrow>
        fst (ScrapeYear lib w year outDir) \<noteq> None
        \<and> \<not> touchedDisk (snd (ScrapeYear lib w year outDir)))"
proof -
  have ok: "fst (ScrapeYear lib w year outDir) = None \<longrightarrow>
      (\<exists>resp doc. http_Get w (pageURL year) = Inr resp
         \<and> NewDocumentFromReader w (Body resp) = Inr doc
         \<and> extractJudgments lib (RequestURL resp) doc \<noteq> []
         \<and> last (snd (ScrapeYear lib w year outDir)) =
             (EncodeJSON (outFile lib outDir year) (extractJudgments lib (RequestURL resp) doc),
              True))"
    by (simp add: ScrapeYear_def Let_def split: sum.splits option.splits)
  have failed: "fst (ScrapeYear lib w year outDir) \<noteq> None \<longrightarrow>
        \<not> wroteRecords (snd (ScrapeYear lib w year outDir))
        \<and> (touchedFile (snd (ScrapeYear lib w year outDir)) \<longleftrightarrow>
             (\<exists>js. (EncodeJSON (outFile lib outDir year) js, False)
                     \<in> set (snd (ScrapeYear lib w year outDir))))"
    by (simp add: ScrapeYear_def Let_def wroteRecords_def touchedFile_def
        split: sum.splits option.splits)
  have none: "http_Get w (pageURL year) = Inr resp \<and> NewDocumentFromReader w (Body resp) = Inr doc
        \<and> extractJudgments lib (RequestURL resp) doc = [] \<longrightarrow>
        fst (ScrapeYear lib w year outDir) \<noteq> None
        \<and> \<not> touchedDisk (snd (ScrapeYear lib w year outDir))"
    by (simp add: ScrapeYear_def Let_def touchedDisk_def)
  from ok failed none show ?thesis by blast
qed

text \<open>
  An attempt whose encoder fails has created the file of the year and has not written the
  records to it.
\<close>

theorem encode_failure_counterexample:
  "fst (ScrapeYear sampleLib diskFullEnv 2016 ''output'') \<noteq> None
   \<and> touchedFile (snd (ScrapeYear sampleLib diskFullEnv 2016 ''output''))
   \<and> \<not> wroteRecords (snd (ScrapeYear sampleLib diskFullEnv 2016 ''output''))"
  by (simp add: diskFull_run touchedFile_def wroteRecords_def)

theorem attempt_writes_witness:
  "fst (ScrapeYear sampleLib servingEnv 2016 ''output'') = None
   \<and> last (snd (ScrapeYear sampleLib servingEnv 2016 ''output'')) =
       (EncodeJSON (outFile sampleLib ''output'' 2016) [sampleJudgment], True)
   \<and> fst (ScrapeYear sampleLib downEnv 2016 ''output'') \<noteq> None
   \<and> \<not> touchedFile (snd (ScrapeYear sampleLib downEnv 2016 ''output''))"
proof -
  have "fst (ScrapeYear sampleLib servingEnv 2016 ''output'') = None
      \<and> last (snd (ScrapeYear sampleLib servingEnv 2016 ''output'')) =
       (EncodeJSON (outFile sampleLib ''output'' 2016) [sampleJudgment], True)"
    by (simp add: serving_run)
  moreover have "\<forall>js. (EncodeJSON (outFile sampleLib ''output'' 2016) js, False)
      \<notin> set (snd (ScrapeYear sampleLib downEnv 2016 ''output''))"
    by (simp add: ScrapeYear_def downEnv_def servingEnv_def)
  moreover note down_fails [of sampleLib 2016 "''output''"]
    attempt_writes_all_or_fails [of sampleLib downEnv 2016 "''output''"]
  ultimately show ?thesis by blast
qed

section \<open>The scheduler\<close>

text \<open>
  C3. In the worker path, a job whose every attempt fails is attempted exactly 1 + R
  times, R being the retry count, with one sleep of the retry delay between two
  consecutive attempts; the worker then gives the job up and goes on with its next jobs,
  whose runs do not depend on the job given up. With two retries, a job that fails at
  every attempt is attempted exactly three times.
\<close>

theorem worker_gives_up_after_retries:
  assumes "\<forall>k. fst (ScrapeYear lib (world y k) y (filepath_Clean lib out)) \<noteq> None"
  shows "jobLoop lib world out (int R) D y 0 =
       concat (map (\<lambda>k. [Attempt y k (ScrapeYear lib (world y k) y (filepath_Clean lib out)),
                          Sleep D]) [1..int R])
       @ [Attempt y (int R + 1)
            (ScrapeYear lib (world y (int R + 1)) y (filepath_Clean lib out)),
          GaveUp y (int R + 1)]
     \<and> attempts y (jobLoop lib world out (int R) D y 0) = 1 + R
     \<and> filter isSleep (jobLoop lib world out (int R) D y 0) = replicate R (Sleep D)
     \<and> attempts y (jobLoop lib world out 2 D y 0) = 3
     \<and> worker lib world out (int R) D (y # js) =
         jobLoop lib world out (int R) D y 0 @ worker lib world out (int R) D js
     \<and> ((\<forall>y'\<in>set js. world' y' = world y') \<longrightarrow>
          worker lib world' out (int R) D js = worker lib world out (int R) D js)"
proof -
  have "jobLoop lib world out (int R) D y 0 =
       concat (map (\<lambda>k. [Attempt y k (ScrapeYear lib (world y k) y (filepath_Clean lib out)),
                          Sleep D]) [0 + 1..int R])
       @ [Attempt y (int R + 1)
            (ScrapeYear lib (world y (int R + 1)) y (filepath_Clean lib out)),
          GaveUp y (int R + 1)]"
    using assms by (rule jobLoop_all_fail) simp
  then have shape: "jobLoop lib world out (int R) D y 0 =
       concat (map (\<lambda>k. [Attempt y k (ScrapeYear lib (world y k) y (filepath_Clean lib out)),
                          Sleep D]) [1..int R])
       @ [Attempt y (int R + 1)
            (ScrapeYear lib (world y (int R + 1)) y (filepath_Clean lib out)),
          GaveUp y (int R + 1)]"
    by simp
  have count: "attempts y (jobLoop lib world out (int R) D y 0) = 1 + R"
    using jobLoop_all_fail_count(1) [where lib = lib and world = world and y = y and out = out
        and R = "int R" and D = D] assms by simp
  have sleeps: "filter isSleep (jobLoop lib world out (int R) D y 0) = replicate R (Sleep D)"
    using jobLoop_all_fail_count(2) [where lib = lib and world = world and y = y and out = out
        and R = "int R" and D = D] assms by simp
  have three: "attempts y (jobLoop lib world out 2 D y 0) = 3"
    using jobLoop_all_fail_count(1) [where lib = lib and world = world and y = y and out = out
        and R = "2" and D = D] assms by simp
  have next_job: "worker lib world out (int R) D (y # js) =
         jobLoop lib world out (int R) D y 0 @ worker lib world out (int R) D js"
    by (simp add: worker_def)
  have others: "(\<forall>y'\<in>set js. world' y' = world y') \<longrightarrow>
          worker lib world' out (int R) D js = worker lib world out (int R) D js"
    by (simp add: worker_world_cong)
  from shape count sleeps three next_job others show ?thesis by blast
qed

theorem worker_gives_up_witness:
  "fst (ScrapeYear sampleLib (deadWorld 2016 1) 2016 (filepath_Clean sampleLib ''output'')) \<noteq> None
   \<and> attempts 2016 (jobLoop sampleLib deadWorld ''output'' 2 5 2016 0) = 3
   \<and> filter isSleep (jobLoop sampleLib deadWorld ''output'' 2 5 2016 0) = replicate 2 (Sleep 5)"
proof -
  have dead: "\<forall>k. fst (ScrapeYear sampleLib (deadWorld 2016 k) 2016
      (filepath_Clean sampleLib ''output'')) \<noteq> None"
    by (simp add: deadWorld_def downEnv_def servingEnv_def ScrapeYear_def)
  have "attempts 2016 (jobLoop sampleLib deadWorld ''output'' (int 2) 5 2016 0) = 1 + 2
      \<and> filter isSleep (jobLoop sampleLib deadWorld ''output'' (int 2) 5 2016 0)
          = replicate 2 (Sleep 5)"
    using worker_gives_up_after_retries [where lib = sampleLib and world = deadWorld
      and y = 2016 and out = "''output''" and R = 2 and D = 5 and js = "[]"
      and world' = deadWorld] dead
    by blast
  with dead show ?thesis by simp
qed

text \<open>
  C5. The sequential path and the worker path are to give each year the same outcome.
  With one retry and a page whose first request fails and whose second is served, the
  sequential path leaves the year failed, and the worker path completes it.
\<close>

theorem sequential_path_makes_no_retry:
  "\<not> succeeded (main sampleLib flakyWorld (\<lambda>k. 0) retryFlags) 2016
   \<and> succeeded (main sampleLib flakyWorld (\<lambda>k. 0) (retryFlags\<lparr>flag_concurrency := 2\<rparr>)) 2016"
proof -
  have years: "yearsOf retryFlags = [2016]"
      "yearsOf (retryFlags\<lparr>flag_concurrency := 2\<rparr>) = [2016]"
    by (simp_all add: yearsOf_def retryFlags_def)
  have first: "fst (ScrapeYear sampleLib (flakyWorld 2016 1) 2016
      (filepath_Clean sampleLib ''output'')) \<noteq> None"
    by (simp add: flakyWorld_def down_fails)
  have second: "fst (ScrapeYear sampleLib (flakyWorld 2016 2) 2016
      (filepath_Clean sampleLib ''output'')) = None"
    by (simp add: flakyWorld_def serving_run)
  have seq: "sequential sampleLib flakyWorld ''output'' [2016] =
      [Attempt 2016 1 (ScrapeYear sampleLib (flakyWorld 2016 1) 2016
         (filepath_Clean sampleLib ''output''))]"
    using first by (simp add: sequential_def Let_def)
  have "jobLoop sampleLib flakyWorld ''output'' 1 2 2016 1 =
      [Attempt 2016 2 (ScrapeYear sampleLib (flakyWorld 2016 2) 2016
         (filepath_Clean sampleLib ''output'')), Done 2016]"
    using second by (simp add: jobLoop.simps [of _ _ _ _ _ _ 1])
  with first have job: "jobLoop sampleLib flakyWorld ''output'' 1 2 2016 0 =
      [Attempt 2016 1 (ScrapeYear sampleLib (flakyWorld 2016 1) 2016
         (filepath_Clean sampleLib ''output'')), Sleep 2,
       Attempt 2016 2 (ScrapeYear sampleLib (flakyWorld 2016 2) 2016
         (filepath_Clean sampleLib ''output'')), Done 2016]"
    by (simp add: jobLoop.simps [of _ _ _ _ _ _ 0])
  have pool: "[0..<2] = [0, Suc 0]"
    by (simp add: upt_rec numeral_2_eq_2)
  have jobs: "jobsOf (\<lambda>k. 0) 0 [2016] = [2016]"
    by (simp add: jobsOf_def)
  have run: "worker sampleLib flakyWorld ''output'' 1 2 [2016] =
      jobLoop sampleLib flakyWorld ''output'' 1 2 2016 0"
    by (simp add: worker_def)
  have flags: "flag_out retryFlags = ''output''" "flag_concurrency retryFlags = 1"
      "flag_retries retryFlags = 1" "flag_retryDelay retryFlags = 2"
    by (simp_all add: retryFlags_def)
  have a: "\<not> succeeded (main sampleLib flakyWorld (\<lambda>k. 0) retryFlags) 2016"
    by (simp add: main_def years flags seq succeeded_def)
  have b: "succeeded (main sampleLib flakyWorld (\<lambda>k. 0) (retryFlags\<lparr>flag_concurrency := 2\<rparr>)) 2016"
    by (simp add: main_def years flags succeeded_def pool jobs run job)
  from a b show ?thesis ..
qed

end
